theory Spec2Isabelle
  imports Main "HOL-Library.Word"
begin

section \<open>Point-in-polygon test of PyMca (InsidePolygonWithBounds.c)\<close>

text \<open>
  The file holds one macro, \<^verbatim>\<open>_INSIDE_POLYGON(NAME, TYPE)\<close>, expanded three times
  (query points with \<^verbatim>\<open>double\<close>, \<^verbatim>\<open>float\<close> and \<^verbatim>\<open>int\<close> coordinates), and three
  batch functions that classify an array of query points into an array of bytes.

  Conventions of the embedding:
  \<^item> a \<^verbatim>\<open>double\<close> is an IEEE 754 binary64 value: a signed zero, a finite number (sign,
    mantissa, exponent), an infinity or a NaN. The four arithmetic operations round the
    exact result to the nearest value, ties to even, with gradual underflow and overflow
    to infinity, one rounding for each operation; comparisons follow IEEE 754 (every
    comparison with a NaN is false, \<^verbatim>\<open>!=\<close> is true);
  \<^item> a \<^verbatim>\<open>float\<close> is a binary32 value, an \<^verbatim>\<open>int\<close> is an integer; both are converted to
    \<^verbatim>\<open>double\<close> where they meet a \<^verbatim>\<open>double\<close> operand, as C does;
  \<^item> the \<^verbatim>\<open>int\<close> variables \<^verbatim>\<open>N\<close>, \<^verbatim>\<open>i\<close> and \<^verbatim>\<open>counter\<close> are integers: \<^verbatim>\<open>i\<close> ranges over
    \<open>1..N+1\<close> and \<^verbatim>\<open>counter\<close> over \<open>0..N\<close>, which is exact as long as \<open>N + 1\<close> is an
    \<^verbatim>\<open>int\<close>, that is for every \<open>N\<close> below \<^verbatim>\<open>INT_MAX\<close>; the narrowing of \<^verbatim>\<open>border_value\<close> to
    \<^verbatim>\<open>unsigned char\<close> is written out;
  \<^item> memory is a typed store: a partial map from addresses to scalar objects. Addresses
    count scalar objects, so a \<^verbatim>\<open>Point\<close> at address \<open>a\<close> occupies \<open>a\<close> and \<open>a + 1\<close>,
    and \<^verbatim>\<open>(Point *) vertices\<close> views the doubles at \<open>vertices + 2 * k\<close> and
    \<open>vertices + 2 * k + 1\<close> as the point of index \<open>k\<close>. A read of a cell that is not an
    object of the expected type is the fault \<open>Invalid_Read\<close>, a store to a cell that is
    not an \<^verbatim>\<open>unsigned char\<close> object the fault \<open>Invalid_Write\<close>.
\<close>

subsection \<open>Binary64 values and their comparisons\<close>

type_synonym byte = "8 word"

text \<open>
  \<open>Finite s m e\<close> is the number \<open>(-1)\<^sup>s * m * 2\<^sup>e\<close>. The values of the format are the
  finite ones in normal form (53 bits of mantissa, the exponent from \<open>-1074\<close> to \<open>971\<close>,
  a mantissa below \<open>2\<^sup>5\<^sup>2\<close> only at the least exponent), the two infinities and NaN.
\<close>

datatype double = Finite bool int int | Infinity bool | NaN



definition signed :: "bool \<Rightarrow> int \<Rightarrow> int" where
  "signed s k = (if s then - k else k)"

text \<open>
  The operators \<^verbatim>\<open><\<close>, \<^verbatim>\<open><=\<close> and \<^verbatim>\<open>==\<close> on doubles: two finite values are compared at
  their common least exponent.
\<close>

fun dlt :: "double \<Rightarrow> double \<Rightarrow> bool" where
  "dlt NaN b = False"
| "dlt a NaN = False"
| "dlt (Infinity s) (Infinity t) = (s \<and> \<not> t)"
| "dlt (Infinity s) (Finite t n f) = s"
| "dlt (Finite s m e) (Infinity t) = (\<not> t)"
| "dlt (Finite s m e) (Finite t n f) =
     (let g = min e f
      in signed s (m * 2 ^ nat (e - g)) < signed t (n * 2 ^ nat (f - g)))"

fun dle :: "double \<Rightarrow> double \<Rightarrow> bool" where
  "dle NaN b = False"
| "dle a NaN = False"
| "dle (Infinity s) (Infinity t) = (s \<or> \<not> t)"
| "dle (Infinity s) (Finite t n f) = s"
| "dle (Finite s m e) (Infinity t) = (\<not> t)"
| "dle (Finite s m e) (Finite t n f) =
     (let g = min e f
      in signed s (m * 2 ^ nat (e - g)) \<le> signed t (n * 2 ^ nat (f - g)))"

fun deq :: "double \<Rightarrow> double \<Rightarrow> bool" where
  "deq NaN b = False"
| "deq a NaN = False"
| "deq (Infinity s) (Infinity t) = (s = t)"
| "deq (Infinity s) (Finite t n f) = False"
| "deq (Finite s m e) (Infinity t) = False"
| "deq (Finite s m e) (Finite t n f) =
     (let g = min e f
      in signed s (m * 2 ^ nat (e - g)) = signed t (n * 2 ^ nat (f - g)))"

text \<open>The operators \<^verbatim>\<open>>\<close> and \<^verbatim>\<open>!=\<close>.\<close>

definition dgt :: "double \<Rightarrow> double \<Rightarrow> bool" where
  "dgt a b = dlt b a"

definition dne :: "double \<Rightarrow> double \<Rightarrow> bool" where
  "dne a b = (\<not> deq a b)"

subsection \<open>Binary64 arithmetic\<close>

text \<open>The number of binary digits of a positive integer.\<close>

function bits :: "int \<Rightarrow> int" where
  "bits n = (if n \<le> 0 then 0 else 1 + bits (n div 2))"
  by pat_completeness auto
termination
  by (relation "measure nat") auto

declare bits.simps [simp del]

text \<open>\<open>flog2 n d\<close> is the integer part of the binary logarithm of \<open>n / d\<close>, for positive \<open>n\<close>, \<open>d\<close>.\<close>

definition flog2 :: "int \<Rightarrow> int \<Rightarrow> int" where
  "flog2 n d =
     (let k = bits n - bits d
      in if d * 2 ^ nat k \<le> n * 2 ^ nat (- k) then k else k - 1)"

text \<open>\<open>rne n d\<close> is the integer nearest to \<open>n / d\<close>, the even one of two that are equally near.\<close>

definition rne :: "int \<Rightarrow> int \<Rightarrow> int" where
  "rne n d =
     (let q = n div d; r = n mod d
      in if 2 * r < d then q
         else if d < 2 * r then q + 1
         else if even q then q else q + 1)"

text \<open>
  \<open>round_double s n d e\<close> is the binary64 value nearest to \<open>(-1)\<^sup>s * (n / d) * 2\<^sup>e\<close>: the
  exponent \<open>t\<close> of the result leaves 53 bits of mantissa, or is the least exponent; the
  mantissa is rounded to an integer at this exponent; a mantissa that reaches \<open>2\<^sup>5\<^sup>3\<close>
  moves to the next exponent; an exponent above \<open>971\<close> is an overflow.
\<close>

definition round_double :: "bool \<Rightarrow> int \<Rightarrow> int \<Rightarrow> int \<Rightarrow> double" where
  "round_double s n d e =
     (if n = 0 then Finite s 0 (- 1074)
      else
        let t = max (- 1074) (flog2 n d + e - 52);
            m = rne (n * 2 ^ nat (e - t)) (d * 2 ^ nat (t - e))
        in if m = 2 ^ 53 then (if t + 1 > 971 then Infinity s else Finite s (2 ^ 52) (t + 1))
           else if t > 971 then Infinity s else Finite s m t)"

fun dneg :: "double \<Rightarrow> double" where
  "dneg (Finite s m e) = Finite (\<not> s) m e"
| "dneg (Infinity s) = Infinity (\<not> s)"
| "dneg NaN = NaN"

text \<open>
  The operator \<^verbatim>\<open>+\<close>. An exact sum of zero is \<open>+0\<close>, unless both operands are negative.
\<close>

fun dadd :: "double \<Rightarrow> double \<Rightarrow> double" where
  "dadd NaN b = NaN"
| "dadd a NaN = NaN"
| "dadd (Infinity s) (Infinity t) = (if s = t then Infinity s else NaN)"
| "dadd (Infinity s) (Finite t n f) = Infinity s"
| "dadd (Finite s m e) (Infinity t) = Infinity t"
| "dadd (Finite s m e) (Finite t n f) =
     (let g = min e f;
          c = signed s (m * 2 ^ nat (e - g)) + signed t (n * 2 ^ nat (f - g))
      in if c = 0 then Finite (s \<and> t) 0 (- 1074)
         else round_double (c < 0) \<bar>c\<bar> 1 g)"

text \<open>The operators \<^verbatim>\<open>-\<close>, \<^verbatim>\<open>*\<close> and \<^verbatim>\<open>/\<close>.\<close>

definition dsub :: "double \<Rightarrow> double \<Rightarrow> double" where
  "dsub a b = dadd a (dneg b)"

fun dmul :: "double \<Rightarrow> double \<Rightarrow> double" where
  "dmul NaN b = NaN"
| "dmul a NaN = NaN"
| "dmul (Infinity s) (Infinity t) = Infinity (s \<noteq> t)"
| "dmul (Infinity s) (Finite t n f) = (if n = 0 then NaN else Infinity (s \<noteq> t))"
| "dmul (Finite s m e) (Infinity t) = (if m = 0 then NaN else Infinity (s \<noteq> t))"
| "dmul (Finite s m e) (Finite t n f) = round_double (s \<noteq> t) (m * n) 1 (e + f)"

fun ddiv :: "double \<Rightarrow> double \<Rightarrow> double" where
  "ddiv NaN b = NaN"
| "ddiv a NaN = NaN"
| "ddiv (Infinity s) (Infinity t) = NaN"
| "ddiv (Infinity s) (Finite t n f) = Infinity (s \<noteq> t)"
| "ddiv (Finite s m e) (Infinity t) = Finite (s \<noteq> t) 0 (- 1074)"
| "ddiv (Finite s m e) (Finite t n f) =
     (if n = 0 then (if m = 0 then NaN else Infinity (s \<noteq> t))
      else round_double (s \<noteq> t) m n (e - f))"

subsection \<open>Conversions to \<^verbatim>\<open>double\<close>\<close>

text \<open>
  A binary32 value, with the same reading as \<open>Finite\<close>, and the conversions of a
  \<^verbatim>\<open>float\<close> and of an \<^verbatim>\<open>int\<close> operand to \<^verbatim>\<open>double\<close>.
\<close>

datatype single = SFinite bool int int | SInfinity bool | SNaN

fun double_of_single :: "single \<Rightarrow> double" where
  "double_of_single (SFinite s m e) = round_double s m 1 e"
| "double_of_single (SInfinity s) = Infinity s"
| "double_of_single SNaN = NaN"

definition double_of_int :: "int \<Rightarrow> double" where
  "double_of_int k = round_double (k < 0) \<bar>k\<bar> 1 0"

subsection \<open>The header \<^verbatim>\<open>InsidePolygonWithBounds.h\<close>\<close>

text \<open>
  Modelled from the spec: the structures \<^verbatim>\<open>Point\<close>, \<^verbatim>\<open>PointF\<close> and \<^verbatim>\<open>PointInt\<close> of the header,
  which is not among the sources. ``Point: an ordered pair of coordinates (x, y). Three
  variants exist, differing only in the numeric representation of the coordinates:
  double-precision float, single-precision float, integer.''
\<close>

record 'c point =
  x :: 'c
  y :: 'c

type_synonym Point = "double point"
type_synonym PointF = "single point"
type_synonym PointInt = "int point"

text \<open>
  Modelled from the spec: the sentinels \<^verbatim>\<open>INSIDE\<close> and \<^verbatim>\<open>OUTSIDE\<close> of the header. ``INSIDE and
  OUTSIDE must be two distinct fixed byte values (e.g. 1 and 0).''
\<close>

definition INSIDE :: byte where
  "INSIDE = 1"

definition OUTSIDE :: byte where
  "OUTSIDE = 0"

text \<open>
  Modelled from the spec: the macros \<^verbatim>\<open>MIN\<close> and \<^verbatim>\<open>MAX\<close> of the header, ``the smaller'' and
  ``the larger'' of two values, as the conditional expressions \<^verbatim>\<open>(x < y ? x : y)\<close> and
  \<^verbatim>\<open>(x > y ? x : y)\<close>.
\<close>

definition MIN_of :: "double \<Rightarrow> double \<Rightarrow> double" where
  "MIN_of a b = (if dlt a b then a else b)"

definition MAX_of :: "double \<Rightarrow> double \<Rightarrow> double" where
  "MAX_of a b = (if dgt a b then a else b)"

subsection \<open>Memory\<close>

datatype cell = CDouble double | CFloat single | CInt int | CUChar byte

type_synonym memory = "int \<rightharpoonup> cell"

datatype fault = Invalid_Read | Invalid_Write

definition load_double :: "memory \<Rightarrow> int \<Rightarrow> fault + double" where
  "load_double m a = (case m a of Some (CDouble d) \<Rightarrow> Inr d | _ \<Rightarrow> Inl Invalid_Read)"

definition load_float :: "memory \<Rightarrow> int \<Rightarrow> fault + single" where
  "load_float m a = (case m a of Some (CFloat f) \<Rightarrow> Inr f | _ \<Rightarrow> Inl Invalid_Read)"

definition load_int :: "memory \<Rightarrow> int \<Rightarrow> fault + int" where
  "load_int m a = (case m a of Some (CInt k) \<Rightarrow> Inr k | _ \<Rightarrow> Inl Invalid_Read)"

text \<open>Reading a structure of two coordinates through a pointer: \<^verbatim>\<open>*point\<close>, \<^verbatim>\<open>polygon[k]\<close>.\<close>

definition load_point :: "(memory \<Rightarrow> int \<Rightarrow> fault + 'c) \<Rightarrow> memory \<Rightarrow> int \<Rightarrow> fault + 'c point" where
  "load_point ld m a =
     (case ld m a of
        Inl e \<Rightarrow> Inl e
      | Inr px \<Rightarrow> (case ld m (a + 1) of
                    Inl e \<Rightarrow> Inl e
                  | Inr py \<Rightarrow> Inr \<lparr>x = px, y = py\<rparr>))"

definition load_Point :: "memory \<Rightarrow> int \<Rightarrow> fault + Point" where
  "load_Point = load_point load_double"

definition load_PointF :: "memory \<Rightarrow> int \<Rightarrow> fault + PointF" where
  "load_PointF = load_point load_float"

definition load_PointInt :: "memory \<Rightarrow> int \<Rightarrow> fault + PointInt" where
  "load_PointInt = load_point load_int"

text \<open>C's \<^verbatim>\<open>%\<close> truncates towards zero: the remainder has the sign of the dividend.\<close>

definition c_rem :: "int \<Rightarrow> int \<Rightarrow> int" where
  "c_rem a b = sgn a * (\<bar>a\<bar> mod \<bar>b\<bar>)"

subsection \<open>The predicate \<^verbatim>\<open>_INSIDE_POLYGON(NAME, TYPE)\<close>\<close>

text \<open>
  The body of the loop after \<^verbatim>\<open>p2\<close> has been read (lines 22 to 32): the new value of
  \<^verbatim>\<open>counter\<close>. \<open>px\<close> and \<open>py\<close> are \<^verbatim>\<open>p.x\<close> and \<^verbatim>\<open>p.y\<close> converted to \<^verbatim>\<open>double\<close>.
\<close>

definition count_edge :: "Point \<Rightarrow> Point \<Rightarrow> double \<Rightarrow> double \<Rightarrow> int \<Rightarrow> int" where
  "count_edge p1 p2 px py counter =
     (if dgt py (MIN_of (y p1) (y p2)) then
        if dle py (MAX_of (y p1) (y p2)) then
          if dle px (MAX_of (x p1) (x p2)) then
            if dne (y p1) (y p2) then
              (let xinters =
                     dadd (ddiv (dmul (dsub py (y p1)) (dsub (x p2) (x p1)))
                                (dsub (y p2) (y p1)))
                          (x p1)
               in if deq (x p1) (x p2) \<or> dle px xinters then counter + 1 else counter)
            else counter
          else counter
        else counter
      else counter)"

text \<open>
  The \<^verbatim>\<open>for\<close> loop (lines 18 to 34) and the parity test after it (lines 36 to 39), from
  the state \<open>(i, p1, counter)\<close>. \<open>cv\<close> is the conversion of \<^verbatim>\<open>TYPE\<close>'s coordinates to
  \<^verbatim>\<open>double\<close>.
\<close>

function scan ::
  "('c \<Rightarrow> double) \<Rightarrow> memory \<Rightarrow> int \<Rightarrow> int \<Rightarrow> 'c point \<Rightarrow> byte \<Rightarrow> int \<Rightarrow> Point \<Rightarrow> int \<Rightarrow> fault + byte"
where
  "scan cv m polygon N p border_value i p1 counter =
     (if i \<le> N then
        if deq (x p1) (cv (x p)) \<and> deq (y p1) (cv (y p)) then Inr border_value
        else
          (case load_Point m (polygon + 2 * c_rem i N) of
             Inl e \<Rightarrow> Inl e
           | Inr p2 \<Rightarrow>
               scan cv m polygon N p border_value (i + 1) p2
                 (count_edge p1 p2 (cv (x p)) (cv (y p)) counter))
      else if c_rem counter 2 = 0 then Inr OUTSIDE else Inr INSIDE)"
  by pat_completeness auto
termination
  by (relation "measure (\<lambda>(cv, m, polygon, N, p, border_value, i, p1, counter). nat (N + 1 - i))")
    auto

declare scan.simps [simp del]

definition INSIDE_POLYGON ::
  "('c \<Rightarrow> double) \<Rightarrow> memory \<Rightarrow> int \<Rightarrow> int \<Rightarrow> 'c point \<Rightarrow> byte \<Rightarrow> fault + byte"
where
  "INSIDE_POLYGON cv m polygon N p border_value =
     (case load_Point m polygon of
        Inl e \<Rightarrow> Inl e
      | Inr p1 \<Rightarrow> scan cv m polygon N p border_value 1 p1 0)"

definition InsidePolygon :: "memory \<Rightarrow> int \<Rightarrow> int \<Rightarrow> Point \<Rightarrow> byte \<Rightarrow> fault + byte" where
  "InsidePolygon = INSIDE_POLYGON (\<lambda>d. d)"

definition InsidePolygonF :: "memory \<Rightarrow> int \<Rightarrow> int \<Rightarrow> PointF \<Rightarrow> byte \<Rightarrow> fault + byte" where
  "InsidePolygonF = INSIDE_POLYGON double_of_single"

definition InsidePolygonInt :: "memory \<Rightarrow> int \<Rightarrow> int \<Rightarrow> PointInt \<Rightarrow> byte \<Rightarrow> fault + byte" where
  "InsidePolygonInt = INSIDE_POLYGON double_of_int"

subsection \<open>The batch functions\<close>

text \<open>
  The machine state of a batch call: the memory, and the addresses stored to so far, in
  program order.
\<close>

record state =
  mem :: memory
  stores :: "int list"

text \<open>The assignment \<^verbatim>\<open>*p = v\<close> through an \<^verbatim>\<open>unsigned char *\<close>.\<close>

definition store_uchar :: "state \<Rightarrow> int \<Rightarrow> byte \<Rightarrow> fault + state" where
  "store_uchar s a v =
     (case mem s a of
        Some (CUChar old) \<Rightarrow> Inr (s\<lparr>mem := (mem s)(a \<mapsto> CUChar v), stores := stores s @ [a]\<rparr>)
      | _ \<Rightarrow> Inl Invalid_Write)"

text \<open>
  The three batch functions have the same text but for the type behind \<^verbatim>\<open>point\<close> and
  the instance of the predicate they call. Their loop, from the state \<open>(i, p, point)\<close>:
  \<open>ld\<close> reads \<^verbatim>\<open>*point\<close>, \<open>inside\<close> is the predicate, and \<^verbatim>\<open>point++\<close> advances by one
  structure of two coordinates.
\<close>

function points_loop ::
  "(memory \<Rightarrow> int \<Rightarrow> fault + 'c point) \<Rightarrow>
   (memory \<Rightarrow> int \<Rightarrow> int \<Rightarrow> 'c point \<Rightarrow> byte \<Rightarrow> fault + byte) \<Rightarrow>
   state \<Rightarrow> int \<Rightarrow> int \<Rightarrow> int \<Rightarrow> int \<Rightarrow> byte \<Rightarrow> int \<Rightarrow> int \<Rightarrow> fault + state"
where
  "points_loop ld inside s polygon N_vertices point N_points_xy border p i =
     (if i < N_points_xy then
        (case ld (mem s) point of
           Inl e \<Rightarrow> Inl e
         | Inr pt \<Rightarrow>
             (case inside (mem s) polygon N_vertices pt border of
                Inl e \<Rightarrow> Inl e
              | Inr r \<Rightarrow>
                  (case store_uchar s p r of
                     Inl e \<Rightarrow> Inl e
                   | Inr s' \<Rightarrow>
                       points_loop ld inside s' polygon N_vertices (point + 2) N_points_xy
                         border (p + 1) (i + 1))))
      else Inr s)"
  by pat_completeness auto
termination
  by (relation "measure (\<lambda>(ld, inside, s, polygon, N_vertices, point, N_points_xy, border, p, i).
        nat (N_points_xy - i))") auto

declare points_loop.simps [simp del]

text \<open>The cast \<^verbatim>\<open>(unsigned char) border_value\<close> keeps the low eight bits.\<close>

definition PointsInsidePolygon ::
  "state \<Rightarrow> int \<Rightarrow> int \<Rightarrow> int \<Rightarrow> int \<Rightarrow> int \<Rightarrow> int \<Rightarrow> fault + state"
where
  "PointsInsidePolygon s vertices N_vertices points_xy N_points_xy border_value output =
     (let polygon = vertices;
          point = points_xy;
          border = (word_of_int border_value :: byte);
          p = output
      in points_loop load_Point InsidePolygon s polygon N_vertices point N_points_xy border p 0)"

definition PointsInsidePolygonF ::
  "state \<Rightarrow> int \<Rightarrow> int \<Rightarrow> int \<Rightarrow> int \<Rightarrow> int \<Rightarrow> int \<Rightarrow> fault + state"
where
  "PointsInsidePolygonF s vertices N_vertices points_xy N_points_xy border_value output =
     (let polygon = vertices;
          point = points_xy;
          border = (word_of_int border_value :: byte);
          p = output
      in points_loop load_PointF InsidePolygonF s polygon N_vertices point N_points_xy border p 0)"

definition PointsInsidePolygonInt ::
  "state \<Rightarrow> int \<Rightarrow> int \<Rightarrow> int \<Rightarrow> int \<Rightarrow> int \<Rightarrow> int \<Rightarrow> fault + state"
where
  "PointsInsidePolygonInt s vertices N_vertices points_xy N_points_xy border_value output =
     (let polygon = vertices;
          point = points_xy;
          border = (word_of_int border_value :: byte);
          p = output
      in points_loop load_PointInt InsidePolygonInt s polygon N_vertices point N_points_xy
           border p 0)"

subsection \<open>Arrays in memory\<close>

text \<open>
  \<open>points_at ld m a qs\<close>: the array of structures that starts at address \<open>a\<close> holds the
  points \<open>qs\<close>, in this order. \<open>uchars_at m a n\<close>: the \<open>n\<close> cells from \<open>a\<close> on are
  \<^verbatim>\<open>unsigned char\<close> objects.
\<close>

fun points_at :: "(memory \<Rightarrow> int \<Rightarrow> fault + 'c) \<Rightarrow> memory \<Rightarrow> int \<Rightarrow> 'c point list \<Rightarrow> bool" where
  "points_at ld m a [] = True"
| "points_at ld m a (q # qs) = (load_point ld m a = Inr q \<and> points_at ld m (a + 2) qs)"

definition is_uchar :: "cell option \<Rightarrow> bool" where
  "is_uchar c = (case c of Some (CUChar v) \<Rightarrow> True | _ \<Rightarrow> False)"

fun uchars_at :: "memory \<Rightarrow> int \<Rightarrow> nat \<Rightarrow> bool" where
  "uchars_at m a 0 = True"
| "uchars_at m a (Suc n) = (is_uchar (m a) \<and> uchars_at m (a + 1) n)"

subsection \<open>The algorithm in the words of the specification\<close>

text \<open>
  The polygon \<open>v[0..N-1]\<close> has the edges \<open>(v[i], v[(i+1) mod N])\<close> for \<open>i\<close> in \<open>0..N-1\<close>.
\<close>

definition spec_edges :: "Point list \<Rightarrow> (Point \<times> Point) list" where
  "spec_edges v = map (\<lambda>i. (v ! i, v ! ((i + 1) mod length v))) [0..<length v]"

text \<open>
  \<open>xintersect = (p.y - p1.y) * (p2.x - p1.x) / (p2.y - p1.y) + p1.x\<close>, in the arithmetic of
  \<^verbatim>\<open>double\<close>.
\<close>

definition spec_xintersect :: "Point \<Rightarrow> Point \<Rightarrow> Point \<Rightarrow> double" where
  "spec_xintersect p p1 p2 =
     dadd (ddiv (dmul (dsub (y p) (y p1)) (dsub (x p2) (x p1))) (dsub (y p2) (y p1))) (x p1)"

text \<open>When the edge \<open>(p1, p2)\<close> counts as a crossing for the query point \<open>p\<close>.\<close>

definition spec_crossing :: "Point \<Rightarrow> Point \<times> Point \<Rightarrow> bool" where
  "spec_crossing p e =
     (case e of (p1, p2) \<Rightarrow>
        dgt (y p) (MIN_of (y p1) (y p2)) \<and> dle (y p) (MAX_of (y p1) (y p2)) \<and>
        dle (x p) (MAX_of (x p1) (x p2)) \<and> dne (y p1) (y p2) \<and>
        (deq (x p1) (x p2) \<or> dle (x p) (spec_xintersect p p1 p2)))"

definition spec_crossings :: "Point list \<Rightarrow> Point \<Rightarrow> nat" where
  "spec_crossings v p = length (filter (spec_crossing p) (spec_edges v))"

text \<open>
  Coincidence of the query point with a vertex: both coordinates compare equal with
  \<^verbatim>\<open>==\<close>.
\<close>

definition coincides :: "Point \<Rightarrow> Point \<Rightarrow> bool" where
  "coincides p q = (deq (x q) (x p) \<and> deq (y q) (y p))"

definition spec_classify :: "Point list \<Rightarrow> Point \<Rightarrow> byte \<Rightarrow> byte" where
  "spec_classify v p border_value =
     (if list_ex (coincides p) v then border_value
      else if even (spec_crossings v p) then OUTSIDE else INSIDE)"

text \<open>The query point with its coordinates converted to \<^verbatim>\<open>double\<close>.\<close>

definition promote :: "('c \<Rightarrow> double) \<Rightarrow> 'c point \<Rightarrow> Point" where
  "promote cv p = \<lparr>x = cv (x p), y = cv (y p)\<rparr>"

text \<open>
  The memory after the bytes \<open>rs\<close> have been stored from address \<open>a\<close> on, used to state
  what a batch call leaves in \<^verbatim>\<open>output\<close>.
\<close>

fun store_uchars :: "memory \<Rightarrow> int \<Rightarrow> byte list \<Rightarrow> memory" where
  "store_uchars m a [] = m"
| "store_uchars m a (r # rs) = store_uchars (m(a \<mapsto> CUChar r)) (a + 1) rs"

subsection \<open>Concrete memories\<close>

text \<open>
  The square of the specification's examples, and a memory that holds it at address 0,
  two query points (the inner point \<open>(5, 5)\<close> and the vertex \<open>(10, 10)\<close>) once with
  each coordinate type at addresses 8, 12 and 16, two output bytes at address 20, and the
  square again, listed from its second vertex on, at address 22. The \<^verbatim>\<open>float\<close> values are
  \<open>5 = 10485760 * 2\<^sup>-\<^sup>2\<^sup>1\<close> and \<open>10 = 10485760 * 2\<^sup>-\<^sup>2\<^sup>0\<close>.
\<close>

definition square :: "Point list" where
  "square =
     [\<lparr>x = double_of_int 0, y = double_of_int 0\<rparr>, \<lparr>x = double_of_int 0, y = double_of_int 10\<rparr>,
      \<lparr>x = double_of_int 10, y = double_of_int 10\<rparr>, \<lparr>x = double_of_int 10, y = double_of_int 0\<rparr>]"

definition example_mem :: memory where
  "example_mem =
     [0 \<mapsto> CDouble (double_of_int 0), 1 \<mapsto> CDouble (double_of_int 0),
      2 \<mapsto> CDouble (double_of_int 0), 3 \<mapsto> CDouble (double_of_int 10),
      4 \<mapsto> CDouble (double_of_int 10), 5 \<mapsto> CDouble (double_of_int 10),
      6 \<mapsto> CDouble (double_of_int 10), 7 \<mapsto> CDouble (double_of_int 0),
      8 \<mapsto> CDouble (double_of_int 5), 9 \<mapsto> CDouble (double_of_int 5),
      10 \<mapsto> CDouble (double_of_int 10), 11 \<mapsto> CDouble (double_of_int 10),
      12 \<mapsto> CFloat (SFinite False 10485760 (- 21)), 13 \<mapsto> CFloat (SFinite False 10485760 (- 21)),
      14 \<mapsto> CFloat (SFinite False 10485760 (- 20)), 15 \<mapsto> CFloat (SFinite False 10485760 (- 20)),
      16 \<mapsto> CInt 5, 17 \<mapsto> CInt 5, 18 \<mapsto> CInt 10, 19 \<mapsto> CInt 10,
      20 \<mapsto> CUChar 0, 21 \<mapsto> CUChar 0,
      22 \<mapsto> CDouble (double_of_int 0), 23 \<mapsto> CDouble (double_of_int 10),
      24 \<mapsto> CDouble (double_of_int 10), 25 \<mapsto> CDouble (double_of_int 10),
      26 \<mapsto> CDouble (double_of_int 10), 27 \<mapsto> CDouble (double_of_int 0),
      28 \<mapsto> CDouble (double_of_int 0), 29 \<mapsto> CDouble (double_of_int 0)]"

definition example_state :: state where
  "example_state = \<lparr>mem = example_mem, stores = []\<rparr>"

definition example_points :: "Point list" where
  "example_points =
     [\<lparr>x = double_of_int 5, y = double_of_int 5\<rparr>, \<lparr>x = double_of_int 10, y = double_of_int 10\<rparr>]"

definition example_pointsF :: "PointF list" where
  "example_pointsF =
     [\<lparr>x = SFinite False 10485760 (- 21), y = SFinite False 10485760 (- 21)\<rparr>,
      \<lparr>x = SFinite False 10485760 (- 20), y = SFinite False 10485760 (- 20)\<rparr>]"

definition example_pointsInt :: "PointInt list" where
  "example_pointsInt = [\<lparr>x = 5, y = 5\<rparr>, \<lparr>x = 10, y = 10\<rparr>]"

text \<open>A triangle whose first vertex has a NaN coordinate, and a memory that holds it.\<close>

definition nan_triangle :: "Point list" where
  "nan_triangle =
     [\<lparr>x = NaN, y = double_of_int 0\<rparr>, \<lparr>x = double_of_int 0, y = double_of_int 10\<rparr>,
      \<lparr>x = double_of_int 10, y = double_of_int 0\<rparr>]"

definition nan_mem :: memory where
  "nan_mem =
     [0 \<mapsto> CDouble NaN, 1 \<mapsto> CDouble (double_of_int 0),
      2 \<mapsto> CDouble (double_of_int 0), 3 \<mapsto> CDouble (double_of_int 10),
      4 \<mapsto> CDouble (double_of_int 10), 5 \<mapsto> CDouble (double_of_int 0)]"



section \<open>Comparisons and rounding\<close>

lemma dlt_NaN_right [simp]: "dlt a NaN = False"
  by (cases a) simp_all

lemma dle_NaN_right [simp]: "dle a NaN = False"
  by (cases a) simp_all

lemma deq_NaN_right [simp]: "deq a NaN = False"
  by (cases a) simp_all

lemma deq_refl: "d \<noteq> NaN \<Longrightarrow> deq d d"
  by (cases d) simp_all

lemma deq_not_NaN: "deq a b \<Longrightarrow> a \<noteq> NaN \<and> b \<noteq> NaN"
  by (cases a; cases b) simp_all















section \<open>The predicate computes the crossing-number rule\<close>

lemma count_edge_spec:
  "count_edge p1 p2 px py counter =
     counter + (if spec_crossing \<lparr>x = px, y = py\<rparr> (p1, p2) then 1 else 0)"
  by (simp add: count_edge_def spec_crossing_def spec_xintersect_def Let_def)

lemma c_rem_mod: "0 \<le> a \<Longrightarrow> 0 < b \<Longrightarrow> c_rem a b = a mod b"
  by (cases "a = 0") (simp_all add: c_rem_def)

lemma c_rem_2_even: "c_rem a 2 = 0 \<longleftrightarrow> even a"
  by (auto simp: c_rem_def sgn_if)

lemma points_at_nth:
  "points_at ld m a qs \<Longrightarrow> k < length qs \<Longrightarrow> load_point ld m (a + 2 * int k) = Inr (qs ! k)"
proof (induction qs arbitrary: a k)
  case Nil
  then show ?case by simp
next
  case (Cons q qs)
  show ?case
  proof (cases k)
    case 0
    with Cons.prems show ?thesis by simp
  next
    case (Suc j)
    with Cons.prems have "load_point ld m (a + 2 + 2 * int j) = Inr (qs ! j)"
      using Cons.IH [of "a + 2" j] by simp
    with Suc show ?thesis by (simp add: algebra_simps)
  qed
qed


lemma length_spec_edges: "length (spec_edges v) = length v"
  by (simp add: spec_edges_def)

lemma spec_edges_nth: "j < length v \<Longrightarrow> spec_edges v ! j = (v ! j, v ! (Suc j mod length v))"
  by (simp add: spec_edges_def)

lemma promote_sel: "x (promote cv p) = cv (x p)" "y (promote cv p) = cv (y p)"
  by (simp_all add: promote_def)

lemma scan_spec:
  assumes at: "points_at load_double m a v" and N: "N = int (length v)"
  shows "j \<le> length v \<Longrightarrow> (j < length v \<longrightarrow> p1 = v ! j) \<Longrightarrow>
    scan cv m a N p b (int j + 1) p1 c =
      Inr (if list_ex (coincides (promote cv p)) (drop j v) then b
           else if even (c + int (length (filter (spec_crossing (promote cv p))
                                     (drop j (spec_edges v)))))
                then OUTSIDE else INSIDE)"
proof (induction "length v - j" arbitrary: j p1 c)
  case 0
  then have "j = length v" by simp
  then show ?case
    by (subst scan.simps) (simp add: N c_rem_2_even length_spec_edges)
next
  case (Suc d)
  then have j: "j < length v" by simp
  with Suc.prems have p1: "p1 = v ! j" by simp
  from j have ne: "v \<noteq> []" by auto
  let ?pp = "promote cv p"
  let ?p2 = "v ! (Suc j mod length v)"
  have dv: "drop j v = v ! j # drop (Suc j) v"
    using j by (simp add: Cons_nth_drop_Suc)
  have de: "drop j (spec_edges v) = (v ! j, ?p2) # drop (Suc j) (spec_edges v)"
    using j by (simp add: Cons_nth_drop_Suc [symmetric] length_spec_edges spec_edges_nth)
  show ?case
  proof (cases "coincides ?pp (v ! j)")
    case True
    then show ?thesis
      using j by (subst scan.simps) (simp add: N p1 dv coincides_def promote_sel)
  next
    case False
    have "c_rem (int j + 1) N = int (Suc j mod length v)"
    proof -
      have "0 \<le> int j + 1" "0 < N" using ne by (simp_all add: N)
      then have "c_rem (int j + 1) N = (int j + 1) mod N" by (rule c_rem_mod)
      then show ?thesis by (simp add: N zmod_int add.commute)
    qed
    moreover have "Suc j mod length v < length v"
      using ne by simp
    ultimately have ld: "load_Point m (a + 2 * c_rem (int j + 1) N) = Inr ?p2"
      using points_at_nth [OF at, of "Suc j mod length v"] by (simp add: load_Point_def)
    have ce: "count_edge p1 ?p2 (cv (x p)) (cv (y p)) c =
        c + (if spec_crossing ?pp (v ! j, ?p2) then 1 else 0)"
      by (simp add: count_edge_spec promote_def p1)
    have IH: "scan cv m a N p b (int (Suc j) + 1) ?p2
          (c + (if spec_crossing ?pp (v ! j, ?p2) then 1 else 0)) =
        Inr (if list_ex (coincides ?pp) (drop (Suc j) v) then b
           else if even ((c + (if spec_crossing ?pp (v ! j, ?p2) then 1 else 0)) +
                     int (length (filter (spec_crossing ?pp) (drop (Suc j) (spec_edges v)))))
                then OUTSIDE else INSIDE)"
      using Suc.hyps j by (intro Suc.hyps(1)) auto
    have i_le: "int j + 1 \<le> N"
      using j by (simp add: N)
    have nco: "\<not> (deq (x p1) (cv (x p)) \<and> deq (y p1) (cv (y p)))"
      using False by (simp add: coincides_def promote_sel p1)
    have "scan cv m a N p b (int j + 1) p1 c =
        scan cv m a N p b (int j + 1 + 1) ?p2
          (c + (if spec_crossing ?pp (v ! j, ?p2) then 1 else 0))"
      by (subst scan.simps) (simp only: i_le nco if_True if_False ld ce sum.case)
    moreover have "int j + 1 + 1 = int (Suc j) + 1"
      by simp
    ultimately have step: "scan cv m a N p b (int j + 1) p1 c =
        scan cv m a N p b (int (Suc j) + 1) ?p2
          (c + (if spec_crossing ?pp (v ! j, ?p2) then 1 else 0))"
      by simp
    show ?thesis
      unfolding step IH using False by (simp add: dv de)
  qed
qed

lemma INSIDE_POLYGON_spec:
  assumes "points_at load_double m a v" and "N = int (length v)" and "v \<noteq> []"
  shows "INSIDE_POLYGON cv m a N p b = Inr (spec_classify v (promote cv p) b)"
proof -
  have "load_Point m a = Inr (v ! 0)"
    using points_at_nth [OF assms(1), of 0] assms(3) by (simp add: load_Point_def)
  moreover have "scan cv m a N p b (int 0 + 1) (v ! 0) 0 = Inr (spec_classify v (promote cv p) b)"
    using scan_spec [OF assms(1,2), of 0 "v ! 0" cv p b 0]
    by (simp add: spec_classify_def spec_crossings_def)
  ultimately show ?thesis by (simp add: INSIDE_POLYGON_def)
qed







lemma example_polygon: "points_at load_double example_mem 0 square"
  by (simp add: square_def example_mem_def load_point_def load_double_def)


section \<open>The batch loop\<close>

lemma is_uchar_upd: "is_uchar (m a) \<Longrightarrow> is_uchar ((m(a \<mapsto> CUChar r)) b) = is_uchar (m b)"
  by (simp add: is_uchar_def)

lemma load_double_upd: "is_uchar (m a) \<Longrightarrow> load_double (m(a \<mapsto> CUChar r)) = load_double m"
  by (rule ext) (auto simp: load_double_def is_uchar_def split: option.splits cell.splits)

lemma load_float_upd: "is_uchar (m a) \<Longrightarrow> load_float (m(a \<mapsto> CUChar r)) = load_float m"
  by (rule ext) (auto simp: load_float_def is_uchar_def split: option.splits cell.splits)

lemma load_int_upd: "is_uchar (m a) \<Longrightarrow> load_int (m(a \<mapsto> CUChar r)) = load_int m"
  by (rule ext) (auto simp: load_int_def is_uchar_def split: option.splits cell.splits)

lemma load_point_cong: "ld m' = ld m \<Longrightarrow> load_point ld m' = load_point ld m"
  by (rule ext) (simp add: load_point_def cong: sum.case_cong)

lemma points_at_cong:
  assumes "ld m' = ld m"
  shows "points_at ld m' a qs = points_at ld m a qs"
proof -
  have "load_point ld m' = load_point ld m"
    using assms by (rule load_point_cong)
  then show ?thesis
    by (induction qs arbitrary: a) simp_all
qed

lemma uchars_at_upd:
  "is_uchar (m a) \<Longrightarrow> uchars_at (m(a \<mapsto> CUChar r)) b n = uchars_at m b n"
  by (induction n arbitrary: b) (simp_all add: is_uchar_upd del: fun_upd_apply)

lemma store_uchar_ok:
  "is_uchar (mem s a) \<Longrightarrow>
   store_uchar s a r = Inr (s\<lparr>mem := (mem s)(a \<mapsto> CUChar r), stores := stores s @ [a]\<rparr>)"
  by (auto simp: store_uchar_def is_uchar_def split: option.splits cell.splits)

lemma store_uchars_apply:
  "store_uchars m a rs b =
     (if a \<le> b \<and> b < a + int (length rs) then Some (CUChar (rs ! nat (b - a))) else m b)"
proof (induction rs arbitrary: m a)
  case Nil
  show ?case by auto
next
  case (Cons r rs)
  have IH: "store_uchars (m(a \<mapsto> CUChar r)) (a + 1) rs b =
     (if a + 1 \<le> b \<and> b < a + 1 + int (length rs) then Some (CUChar (rs ! nat (b - (a + 1))))
      else (m(a \<mapsto> CUChar r)) b)"
    by (rule Cons.IH)
  have "a + 1 \<le> b \<Longrightarrow> nat (b - a) = Suc (nat (b - (a + 1)))"
    by simp
  then show ?case
    unfolding store_uchars.simps IH by auto
qed

lemma map_upt_Suc_shift:
  "map (\<lambda>k. p + int k) [0..<Suc n] = p # map (\<lambda>k. p + 1 + int k) [0..<n]"
proof -
  have "[0..<Suc n] = 0 # [Suc 0..<Suc n]"
    by (rule upt_conv_Cons) simp
  then have "[0..<Suc n] = 0 # map Suc [0..<n]"
    by (simp only: map_Suc_upt)
  then show ?thesis
    by (simp only: list.map map_map o_def of_nat_Suc of_nat_0 add_0_right)
      (simp add: add.assoc add.commute)
qed

lemma points_loop_spec:
  assumes ins: "\<And>m a r. is_uchar (m a) \<Longrightarrow> ld (m(a \<mapsto> CUChar r)) = ld m"
  shows "points_at load_double (mem s) polygon vs \<Longrightarrow> vs \<noteq> [] \<Longrightarrow> Nv = int (length vs) \<Longrightarrow>
    points_at ld (mem s) point pts \<Longrightarrow> uchars_at (mem s) p (length pts) \<Longrightarrow>
    Np = i + int (length pts) \<Longrightarrow>
    points_loop (load_point ld) (INSIDE_POLYGON cv) s polygon Nv point Np border p i =
      Inr (s\<lparr>mem := store_uchars (mem s) p (map (\<lambda>q. spec_classify vs (promote cv q) border) pts),
             stores := stores s @ map (\<lambda>k. p + int k) [0..<length pts]\<rparr>)"
proof (induction pts arbitrary: s point p i)
  case Nil
  then show ?case
    by (subst points_loop.simps) simp
next
  case (Cons q qs)
  let ?r = "spec_classify vs (promote cv q) border"
  let ?s1 = "s\<lparr>mem := (mem s)(p \<mapsto> CUChar ?r), stores := stores s @ [p]\<rparr>"
  from Cons.prems have uc: "is_uchar (mem s p)" by simp
  have lt: "i < Np" using Cons.prems by simp
  have ldq: "load_point ld (mem s) point = Inr q" using Cons.prems by simp
  have cls: "INSIDE_POLYGON cv (mem s) polygon Nv q border = Inr ?r"
    using Cons.prems by (intro INSIDE_POLYGON_spec)
  have st: "store_uchar s p ?r = Inr ?s1"
    using uc by (rule store_uchar_ok)
  have step: "points_loop (load_point ld) (INSIDE_POLYGON cv) s polygon Nv point Np border p i =
      points_loop (load_point ld) (INSIDE_POLYGON cv) ?s1 polygon Nv (point + 2) Np border (p + 1) (i + 1)"
    by (subst points_loop.simps) (simp only: lt if_True ldq cls st sum.case)
  have "points_loop (load_point ld) (INSIDE_POLYGON cv) ?s1 polygon Nv (point + 2) Np border (p + 1) (i + 1) =
      Inr (?s1\<lparr>mem := store_uchars (mem ?s1) (p + 1)
                     (map (\<lambda>q. spec_classify vs (promote cv q) border) qs),
             stores := stores ?s1 @ map (\<lambda>k. p + 1 + int k) [0..<length qs]\<rparr>)"
  proof (rule Cons.IH)
    have "load_double (mem ?s1) = load_double (mem s)"
      using load_double_upd [of "mem s" p, OF uc] by simp
    then have "points_at load_double (mem ?s1) polygon vs = points_at load_double (mem s) polygon vs"
      by (rule points_at_cong)
    then show "points_at load_double (mem ?s1) polygon vs"
      using Cons.prems(1) by (simp only:)
    have "ld (mem ?s1) = ld (mem s)"
      using ins [of "mem s" p, OF uc] by simp
    then have "points_at ld (mem ?s1) (point + 2) qs = points_at ld (mem s) (point + 2) qs"
      by (rule points_at_cong)
    moreover have "points_at ld (mem s) (point + 2) qs"
      using Cons.prems(4) by simp
    ultimately show "points_at ld (mem ?s1) (point + 2) qs"
      by (simp only:)
    show "uchars_at (mem ?s1) (p + 1) (length qs)"
      using Cons.prems(5) uc by (simp add: uchars_at_upd)
    show "Np = i + 1 + int (length qs)"
      using Cons.prems(6) by simp
    show "vs \<noteq> []" by (rule Cons.prems(2))
    show "Nv = int (length vs)" by (rule Cons.prems(3))
  qed
  also have "mem ?s1 = (mem s)(p \<mapsto> CUChar ?r)"
    by simp
  also have "stores ?s1 = stores s @ [p]"
    by simp
  finally have "points_loop (load_point ld) (INSIDE_POLYGON cv) ?s1 polygon Nv (point + 2) Np border (p + 1) (i + 1) =
      Inr (s\<lparr>mem := store_uchars (mem s) p (map (\<lambda>q. spec_classify vs (promote cv q) border) (q # qs)),
             stores := stores s @ map (\<lambda>k. p + int k) [0..<length (q # qs)]\<rparr>)"
    by (simp add: map_upt_Suc_shift del: fun_upd_apply upt_Suc)
  then show ?case
    by (simp only: step)
qed

lemma store_uchars_ld:
  assumes ins: "\<And>m a r. is_uchar (m a) \<Longrightarrow> ld (m(a \<mapsto> CUChar r)) = ld m"
  shows "uchars_at m a (length rs) \<Longrightarrow> ld (store_uchars m a rs) = ld m"
proof (induction rs arbitrary: m a)
  case Nil
  show ?case by simp
next
  case (Cons r rs)
  from Cons.prems have uc: "is_uchar (m a)" and rest: "uchars_at m (a + 1) (length rs)"
    by simp_all
  from rest have "uchars_at (m(a \<mapsto> CUChar r)) (a + 1) (length rs)"
    using uchars_at_upd [of m a r "a + 1" "length rs", OF uc] by (simp only:)
  then have "ld (store_uchars (m(a \<mapsto> CUChar r)) (a + 1) rs) = ld (m(a \<mapsto> CUChar r))"
    by (rule Cons.IH)
  also have "\<dots> = ld m"
    using uc by (rule ins)
  finally show ?case
    by (simp only: store_uchars.simps)
qed

lemma points_loop_result:
  assumes ins: "\<And>m a r. is_uchar (m a) \<Longrightarrow> ld (m(a \<mapsto> CUChar r)) = ld m"
    and poly: "points_at load_double (mem s) polygon vs" "vs \<noteq> []" "Nv = int (length vs)"
    and pts: "points_at ld (mem s) point pts" "Np = int (length pts)"
    and out: "uchars_at (mem s) p (length pts)"
  shows "\<exists>s'. points_loop (load_point ld) (INSIDE_POLYGON cv) s polygon Nv point Np border p 0 = Inr s' \<and>
    (\<forall>i<length pts.
       INSIDE_POLYGON cv (mem s) polygon Nv (pts ! i) border =
         Inr (spec_classify vs (promote cv (pts ! i)) border) \<and>
       mem s' (p + int i) = Some (CUChar (spec_classify vs (promote cv (pts ! i)) border))) \<and>
    stores s' = stores s @ map (\<lambda>k. p + int k) [0..<length pts] \<and>
    (\<forall>a. a < p \<or> p + Np \<le> a \<longrightarrow> mem s' a = mem s a) \<and>
    points_at load_double (mem s') polygon vs \<and>
    points_at ld (mem s') point pts"
proof -
  let ?rs = "map (\<lambda>q. spec_classify vs (promote cv q) border) pts"
  let ?s' = "s\<lparr>mem := store_uchars (mem s) p ?rs, stores := stores s @ map (\<lambda>k. p + int k) [0..<length pts]\<rparr>"
  have run: "points_loop (load_point ld) (INSIDE_POLYGON cv) s polygon Nv point Np border p 0 = Inr ?s'"
  proof -
    have np: "Np = 0 + int (length pts)"
      using pts(2) by simp
    show ?thesis
      using ins poly pts(1) out np by (rule points_loop_spec)
  qed
  have m': "mem ?s' = store_uchars (mem s) p ?rs" and st': "stores ?s' = stores s @ map (\<lambda>k. p + int k) [0..<length pts]"
    by simp_all
  have len: "length ?rs = length pts"
    by simp
  have cls: "INSIDE_POLYGON cv (mem s) polygon Nv q border = Inr (spec_classify vs (promote cv q) border)" for q
    using poly(1,3,2) by (rule INSIDE_POLYGON_spec)
  have byte: "mem ?s' (p + int i) = Some (CUChar (spec_classify vs (promote cv (pts ! i)) border))"
    if "i < length pts" for i
    using that unfolding m' store_uchars_apply by simp
  have frame: "mem ?s' a = mem s a" if "a < p \<or> p + Np \<le> a" for a
    using that unfolding m' store_uchars_apply by (auto simp: pts(2))
  have "load_double (mem ?s') = load_double (mem s)"
    unfolding m' using out by (intro store_uchars_ld load_double_upd) (simp_all only: len)
  then have keep_poly: "points_at load_double (mem ?s') polygon vs"
    using poly(1) points_at_cong [of load_double "mem ?s'" "mem s" polygon vs] by (simp only:)
  have "ld (mem ?s') = ld (mem s)"
    unfolding m' using out by (intro store_uchars_ld ins) (simp_all only: len)
  then have keep_pts: "points_at ld (mem ?s') point pts"
    using pts(1) points_at_cong [of ld "mem ?s'" "mem s" point pts] by (simp only:)
  show ?thesis
    using run cls byte frame keep_poly keep_pts st' by (intro exI [of _ ?s']) blast
qed

section \<open>Properties of the predicate\<close>

lemma example_values:
  "\<not> list_ex (coincides (promote (\<lambda>d. d) \<lparr>x = double_of_int 5, y = double_of_int 5\<rparr>)) square"
  "spec_crossings square (promote (\<lambda>d. d) \<lparr>x = double_of_int 5, y = double_of_int 5\<rparr>) = 1"
  "\<not> list_ex (coincides (promote (\<lambda>d. d) \<lparr>x = double_of_int 15, y = double_of_int 5\<rparr>)) square"
  by code_simp+

lemma square_length: "4 = int (length square)" "square \<noteq> []"
  by (simp_all add: square_def)

text \<open>
  C1. For a polygon \<open>v[0..N-1]\<close> held in memory and a query point that coincides with no
  vertex, every expansion of the macro scans the \<open>N\<close> wrap-around edges
  \<open>(v[i], v[(i+1) mod N])\<close>, counts the edges that satisfy the crossing condition of the
  specification, evaluated in the arithmetic of \<^verbatim>\<open>double\<close>, and returns \<open>OUTSIDE\<close> when
  the count is even and \<open>INSIDE\<close> when it is odd. This holds for every \<open>N\<close> from 1 on, so
  for every \<open>N \<ge> 3\<close>, below \<^verbatim>\<open>INT_MAX\<close>.
\<close>

theorem crossing_parity:
  assumes "points_at load_double m polygon v" and "N = int (length v)" and "v \<noteq> []"
    and "N < 2147483647"
    and "\<not> list_ex (coincides (promote cv p)) v"
  shows "INSIDE_POLYGON cv m polygon N p border_value =
    Inr (if even (spec_crossings v (promote cv p)) then OUTSIDE else INSIDE)"
  using INSIDE_POLYGON_spec [OF assms(1,2,3), of cv p border_value] assms(5)
  by (simp add: spec_classify_def)

theorem crossing_parity_witness:
  "INSIDE_POLYGON (\<lambda>d. d) example_mem 0 4 \<lparr>x = double_of_int 5, y = double_of_int 5\<rparr> 2 = Inr INSIDE"
proof -
  have "(4::int) < 2147483647"
    by simp
  then show ?thesis
    using crossing_parity [OF example_polygon square_length _ example_values(1), of 2]
    by (simp add: example_values(2))
qed

text \<open>
  C2, as the code has it. For the square \<open>[(0,0), (0,10), (10,10), (10,0)]\<close> and any border
  value, the predicate returns \<open>INSIDE\<close> for \<open>(5, 5)\<close>, \<open>OUTSIDE\<close> for \<open>(15, 5)\<close>, the
  border value for the vertex \<open>(0, 0)\<close>, and \<open>OUTSIDE\<close> for the point \<open>(5, 0)\<close> of the
  lower edge: no edge has an endpoint strictly below \<open>y = 0\<close>, so no edge passes the test
  \<^verbatim>\<open>p.y > MIN(p1.y,p2.y)\<close> and the crossing count is 0.
\<close>

theorem square_examples:
  assumes "points_at load_double m polygon square"
  shows
    "InsidePolygon m polygon 4 \<lparr>x = double_of_int 5, y = double_of_int 5\<rparr> border_value =
       Inr INSIDE \<and>
     InsidePolygon m polygon 4 \<lparr>x = double_of_int 15, y = double_of_int 5\<rparr> border_value =
       Inr OUTSIDE \<and>
     InsidePolygon m polygon 4 \<lparr>x = double_of_int 0, y = double_of_int 0\<rparr> border_value =
       Inr border_value \<and>
     InsidePolygon m polygon 4 \<lparr>x = double_of_int 5, y = double_of_int 0\<rparr> border_value =
       Inr OUTSIDE"
proof -
  have "InsidePolygon m polygon 4 q border_value =
      Inr (spec_classify square (promote (\<lambda>d. d) q) border_value)" for q
    unfolding InsidePolygon_def using assms square_length by (rule INSIDE_POLYGON_spec)
  moreover have "spec_classify square
      (promote (\<lambda>d. d) \<lparr>x = double_of_int 5, y = double_of_int 5\<rparr>) border_value = INSIDE"
    by code_simp
  moreover have "spec_classify square
      (promote (\<lambda>d. d) \<lparr>x = double_of_int 15, y = double_of_int 5\<rparr>) border_value = OUTSIDE"
    by code_simp
  moreover have "spec_classify square
      (promote (\<lambda>d. d) \<lparr>x = double_of_int 0, y = double_of_int 0\<rparr>) border_value = border_value"
    by code_simp
  moreover have "spec_classify square
      (promote (\<lambda>d. d) \<lparr>x = double_of_int 5, y = double_of_int 0\<rparr>) border_value = OUTSIDE"
    by code_simp
  ultimately show ?thesis
    by simp
qed

theorem square_examples_witness:
  "InsidePolygon example_mem 0 4 \<lparr>x = double_of_int 5, y = double_of_int 5\<rparr> 2 = Inr INSIDE \<and>
   InsidePolygon example_mem 0 4 \<lparr>x = double_of_int 15, y = double_of_int 5\<rparr> 2 = Inr OUTSIDE \<and>
   InsidePolygon example_mem 0 4 \<lparr>x = double_of_int 0, y = double_of_int 0\<rparr> 2 = Inr 2 \<and>
   InsidePolygon example_mem 0 4 \<lparr>x = double_of_int 5, y = double_of_int 0\<rparr> 2 = Inr OUTSIDE"
  using square_examples [OF example_polygon, of 2] .

text \<open>
  The claim C2 as stated fails: with the border value 2, distinct from both sentinels, the
  code returns \<open>OUTSIDE\<close>, not \<open>INSIDE\<close>, for the edge point \<open>(5, 0)\<close>.
\<close>

theorem square_edge_point_counterexample:
  "2 \<noteq> INSIDE \<and> 2 \<noteq> OUTSIDE \<and> points_at load_double example_mem 0 square \<and>
   InsidePolygon example_mem 0 4 \<lparr>x = double_of_int 5, y = double_of_int 0\<rparr> 2 = Inr OUTSIDE \<and>
   InsidePolygon example_mem 0 4 \<lparr>x = double_of_int 5, y = double_of_int 0\<rparr> 2 \<noteq> Inr INSIDE"
proof -
  have "InsidePolygon example_mem 0 4 \<lparr>x = double_of_int 5, y = double_of_int 0\<rparr> 2 = Inr OUTSIDE"
    by code_simp
  then show ?thesis
    by (simp add: example_polygon INSIDE_def OUTSIDE_def)
qed

text \<open>
  C3, as the code has it. A query point whose converted coordinates are, bit for bit, those
  of some vertex \<open>v[j]\<close>, whatever the position \<open>j\<close> of that vertex in the array, is
  classified as the border value by every expansion of the macro, provided that neither
  coordinate of the vertex is a NaN: the test of lines 19 and 20 is \<^verbatim>\<open>==\<close>, which holds
  between a value and itself for every double but NaN.
\<close>

theorem vertex_coincidence:
  assumes "points_at load_double m polygon v" and "N = int (length v)" and "j < length v"
    and "cv (x p) = x (v ! j)" and "cv (y p) = y (v ! j)"
    and "x (v ! j) \<noteq> NaN" and "y (v ! j) \<noteq> NaN"
  shows "INSIDE_POLYGON cv m polygon N p border_value = Inr border_value"
proof -
  from assms(3) have ne: "v \<noteq> []" by auto
  have "coincides (promote cv p) (v ! j)"
    using assms(4,5,6,7) by (simp add: coincides_def promote_def deq_refl)
  with assms(3) have "list_ex (coincides (promote cv p)) v"
    unfolding list_ex_iff by (meson nth_mem)
  then show ?thesis
    using INSIDE_POLYGON_spec [OF assms(1,2) ne, of cv p border_value]
    by (simp add: spec_classify_def)
qed

theorem vertex_coincidence_witness:
  "INSIDE_POLYGON double_of_int example_mem 0 4 \<lparr>x = 10, y = 0\<rparr> 7 = Inr 7"
proof -
  have "double_of_int 10 \<noteq> NaN" "double_of_int 0 \<noteq> NaN"
    by code_simp+
  then show ?thesis
    using vertex_coincidence [OF example_polygon, of 4 3 double_of_int "\<lparr>x = 10, y = 0\<rparr>" 7]
    by (simp add: square_def)
qed

text \<open>
  The claim C3 as stated fails: the first vertex of the triangle has the coordinates
  \<open>(NaN, 0)\<close>, the query point has the same two values, and the code returns \<open>OUTSIDE\<close>,
  not the border value 2.
\<close>

theorem nan_vertex_counterexample:
  "points_at load_double nan_mem 0 nan_triangle \<and>
   x (nan_triangle ! 0) = NaN \<and> y (nan_triangle ! 0) = double_of_int 0 \<and>
   InsidePolygon nan_mem 0 3 \<lparr>x = NaN, y = double_of_int 0\<rparr> 2 = Inr OUTSIDE \<and>
   InsidePolygon nan_mem 0 3 \<lparr>x = NaN, y = double_of_int 0\<rparr> 2 \<noteq> Inr 2"
proof -
  have "InsidePolygon nan_mem 0 3 \<lparr>x = NaN, y = double_of_int 0\<rparr> 2 = Inr OUTSIDE"
    by code_simp
  moreover have "points_at load_double nan_mem 0 nan_triangle"
    by (simp add: nan_triangle_def nan_mem_def load_point_def load_double_def)
  ultimately show ?thesis
    by (simp add: nan_triangle_def OUTSIDE_def)
qed








section \<open>Properties of the batch functions\<close>

text \<open>
  What a batch call does when the memory holds a polygon \<open>vs\<close> of at least one vertex at
  \<^verbatim>\<open>vertices\<close>, the query points \<open>pts\<close> at \<^verbatim>\<open>points_xy\<close> and as many bytes at \<^verbatim>\<open>output\<close>:
  it returns; each output byte is the result of the predicate, which is the
  classification by the crossing-number rule; the stores go to \<^verbatim>\<open>output\<close>, \<^verbatim>\<open>output + 1\<close>,
  \<open>\<dots>\<close> in this order; every other cell keeps its content.
\<close>

lemma PointsInsidePolygon_result:
  assumes "points_at load_double (mem s) vertices vs" and "vs \<noteq> []"
    and "N_vertices = int (length vs)"
    and "points_at load_double (mem s) points_xy pts" and "N_points_xy = int (length pts)"
    and "uchars_at (mem s) output (length pts)"
  shows "\<exists>s'. PointsInsidePolygon s vertices N_vertices points_xy N_points_xy border_value
          output = Inr s' \<and>
    (\<forall>i<length pts.
       InsidePolygon (mem s) vertices N_vertices (pts ! i) (word_of_int border_value) =
         Inr (spec_classify vs (promote (\<lambda>d. d) (pts ! i)) (word_of_int border_value)) \<and>
       mem s' (output + int i) =
         Some (CUChar (spec_classify vs (promote (\<lambda>d. d) (pts ! i)) (word_of_int border_value)))) \<and>
    stores s' = stores s @ map (\<lambda>k. output + int k) [0..<length pts] \<and>
    (\<forall>a. a < output \<or> output + N_points_xy \<le> a \<longrightarrow> mem s' a = mem s a) \<and>
    points_at load_double (mem s') vertices vs \<and>
    points_at load_double (mem s') points_xy pts"
  unfolding PointsInsidePolygon_def InsidePolygon_def load_Point_def Let_def
  using load_double_upd assms by (rule points_loop_result)

lemma PointsInsidePolygonF_result:
  assumes "points_at load_double (mem s) vertices vs" and "vs \<noteq> []"
    and "N_vertices = int (length vs)"
    and "points_at load_float (mem s) points_xy pts" and "N_points_xy = int (length pts)"
    and "uchars_at (mem s) output (length pts)"
  shows "\<exists>s'. PointsInsidePolygonF s vertices N_vertices points_xy N_points_xy border_value
          output = Inr s' \<and>
    (\<forall>i<length pts.
       InsidePolygonF (mem s) vertices N_vertices (pts ! i) (word_of_int border_value) =
         Inr (spec_classify vs (promote double_of_single (pts ! i)) (word_of_int border_value)) \<and>
       mem s' (output + int i) =
         Some (CUChar (spec_classify vs (promote double_of_single (pts ! i)) (word_of_int border_value)))) \<and>
    stores s' = stores s @ map (\<lambda>k. output + int k) [0..<length pts] \<and>
    (\<forall>a. a < output \<or> output + N_points_xy \<le> a \<longrightarrow> mem s' a = mem s a) \<and>
    points_at load_double (mem s') vertices vs \<and>
    points_at load_float (mem s') points_xy pts"
  unfolding PointsInsidePolygonF_def InsidePolygonF_def load_PointF_def Let_def
  using load_float_upd assms by (rule points_loop_result)

lemma PointsInsidePolygonInt_result:
  assumes "points_at load_double (mem s) vertices vs" and "vs \<noteq> []"
    and "N_vertices = int (length vs)"
    and "points_at load_int (mem s) points_xy pts" and "N_points_xy = int (length pts)"
    and "uchars_at (mem s) output (length pts)"
  shows "\<exists>s'. PointsInsidePolygonInt s vertices N_vertices points_xy N_points_xy border_value
          output = Inr s' \<and>
    (\<forall>i<length pts.
       InsidePolygonInt (mem s) vertices N_vertices (pts ! i) (word_of_int border_value) =
         Inr (spec_classify vs (promote double_of_int (pts ! i)) (word_of_int border_value)) \<and>
       mem s' (output + int i) =
         Some (CUChar (spec_classify vs (promote double_of_int (pts ! i)) (word_of_int border_value)))) \<and>
    stores s' = stores s @ map (\<lambda>k. output + int k) [0..<length pts] \<and>
    (\<forall>a. a < output \<or> output + N_points_xy \<le> a \<longrightarrow> mem s' a = mem s a) \<and>
    points_at load_double (mem s') vertices vs \<and>
    points_at load_int (mem s') points_xy pts"
  unfolding PointsInsidePolygonInt_def InsidePolygonInt_def load_PointInt_def Let_def
  using load_int_upd assms by (rule points_loop_result)


lemma promote_double: "promote (\<lambda>d. d) (q :: Point) = q"
  by (simp add: promote_def)

lemma promote_eqI: "x q = cv (x p) \<Longrightarrow> y q = cv (y p) \<Longrightarrow> promote cv p = (q :: Point)"
  by (simp add: promote_def)


text \<open>The concrete state holds the arrays that the examples below are about.\<close>

lemma example_state_sel: "mem example_state = example_mem" "stores example_state = []"
  by (simp_all add: example_state_def)

lemma example_lengths:
  "4 = int (length square)" "square \<noteq> []" "2 = int (length example_points)"
  "2 = int (length example_pointsF)" "2 = int (length example_pointsInt)"
  by (simp_all add: square_def example_points_def example_pointsF_def example_pointsInt_def)

lemma example_state_arrays:
  "points_at load_double (mem example_state) 0 square"
  "points_at load_double (mem example_state) 8 example_points"
  "points_at load_float (mem example_state) 12 example_pointsF"
  "points_at load_int (mem example_state) 16 example_pointsInt"
  "uchars_at (mem example_state) 20 (nat 2)"
  by (simp_all add: example_state_def example_mem_def square_def example_points_def
      example_pointsF_def example_pointsInt_def load_point_def load_double_def load_float_def
      load_int_def is_uchar_def numeral_2_eq_2)

text \<open>
  The first query point is the same in the three arrays; the second one compares equal to
  the third vertex of the square.
\<close>

lemma example_conversions:
  "x (example_points ! 0) = double_of_single (x (example_pointsF ! 0))"
  "y (example_points ! 0) = double_of_single (y (example_pointsF ! 0))"
  "x (example_points ! 0) = double_of_int (x (example_pointsInt ! 0))"
  "y (example_points ! 0) = double_of_int (y (example_pointsInt ! 0))"
  by code_simp+






text \<open>
  C9. Let the three point arrays hold, at index \<open>i\<close>, the same query point: coordinates
  that a \<^verbatim>\<open>double\<close>, a \<^verbatim>\<open>float\<close> and an \<^verbatim>\<open>int\<close> all represent, so that the conversions of
  the \<^verbatim>\<open>float\<close> and of the \<^verbatim>\<open>int\<close> coordinates are the \<^verbatim>\<open>double\<close> coordinates. Then the
  three batch functions, called with the same polygon of fewer than \<^verbatim>\<open>INT_MAX\<close> vertices
  and the same border value, return and leave the same byte \<open>r\<close> in \<^verbatim>\<open>output[i]\<close>. This
  byte is the classification of the point: it is what each of the three predicates
  returns for the polygon, the point of its type and the narrowed border value, and it is
  the value of the crossing-number rule for the \<^verbatim>\<open>double\<close> point.
\<close>

theorem type_consistency:
  assumes "points_at load_double (mem s) vertices vs" and "vs \<noteq> []"
    and "N_vertices = int (length vs)" and "N_vertices < 2147483647"
    and "points_at load_double (mem s) points_d ptsD"
    and "points_at load_float (mem s) points_f ptsF"
    and "points_at load_int (mem s) points_i ptsI"
    and "N_points_xy = int (length ptsD)"
    and "length ptsF = length ptsD" and "length ptsI = length ptsD"
    and "uchars_at (mem s) output (nat N_points_xy)"
    and "i < length ptsD"
    and "x (ptsD ! i) = double_of_single (x (ptsF ! i))"
    and "y (ptsD ! i) = double_of_single (y (ptsF ! i))"
    and "x (ptsD ! i) = double_of_int (x (ptsI ! i))"
    and "y (ptsD ! i) = double_of_int (y (ptsI ! i))"
  shows "\<exists>sd sf si r.
    PointsInsidePolygon s vertices N_vertices points_d N_points_xy border_value output = Inr sd \<and>
    PointsInsidePolygonF s vertices N_vertices points_f N_points_xy border_value output = Inr sf \<and>
    PointsInsidePolygonInt s vertices N_vertices points_i N_points_xy border_value output = Inr si \<and>
    InsidePolygon (mem s) vertices N_vertices (ptsD ! i) (word_of_int border_value) = Inr r \<and>
    InsidePolygonF (mem s) vertices N_vertices (ptsF ! i) (word_of_int border_value) = Inr r \<and>
    InsidePolygonInt (mem s) vertices N_vertices (ptsI ! i) (word_of_int border_value) = Inr r \<and>
    r = spec_classify vs (ptsD ! i) (word_of_int border_value) \<and>
    mem sd (output + int i) = Some (CUChar r) \<and>
    mem sf (output + int i) = Some (CUChar r) \<and>
    mem si (output + int i) = Some (CUChar r)"
proof -
  let ?b = "word_of_int border_value :: byte"
  let ?r = "spec_classify vs (ptsD ! i) ?b"
  have outD: "uchars_at (mem s) output (length ptsD)"
    and outF: "uchars_at (mem s) output (length ptsF)"
    and outI: "uchars_at (mem s) output (length ptsI)"
    using assms(8,9,10,11) by simp_all
  have lenF: "N_points_xy = int (length ptsF)" and lenI: "N_points_xy = int (length ptsI)"
    using assms(8,9,10) by simp_all
  have iF: "i < length ptsF" and iI: "i < length ptsI"
    using assms(9,10,12) by simp_all
  have pD: "promote (\<lambda>d. d) (ptsD ! i) = ptsD ! i"
    by (rule promote_double)
  have pF: "promote double_of_single (ptsF ! i) = ptsD ! i"
    using assms(13,14) by (rule promote_eqI)
  have pI: "promote double_of_int (ptsI ! i) = ptsD ! i"
    using assms(15,16) by (rule promote_eqI)
  obtain sd where sd:
    "PointsInsidePolygon s vertices N_vertices points_d N_points_xy border_value output = Inr sd"
    "InsidePolygon (mem s) vertices N_vertices (ptsD ! i) ?b = Inr ?r"
    "mem sd (output + int i) = Some (CUChar ?r)"
    using PointsInsidePolygon_result [OF assms(1,2,3,5,8) outD, of border_value] assms(12) pD
    by auto
  obtain sf where sf:
    "PointsInsidePolygonF s vertices N_vertices points_f N_points_xy border_value output = Inr sf"
    "InsidePolygonF (mem s) vertices N_vertices (ptsF ! i) ?b = Inr ?r"
    "mem sf (output + int i) = Some (CUChar ?r)"
    using PointsInsidePolygonF_result [OF assms(1,2,3,6) lenF outF, of border_value] iF pF
    by auto
  obtain si where si:
    "PointsInsidePolygonInt s vertices N_vertices points_i N_points_xy border_value output = Inr si"
    "InsidePolygonInt (mem s) vertices N_vertices (ptsI ! i) ?b = Inr ?r"
    "mem si (output + int i) = Some (CUChar ?r)"
    using PointsInsidePolygonInt_result [OF assms(1,2,3,7) lenI outI, of border_value] iI pI
    by auto
  from sd sf si show ?thesis
    by blast
qed

theorem type_consistency_witness:
  "\<exists>sd sf si r.
    PointsInsidePolygon example_state 0 4 8 2 257 20 = Inr sd \<and>
    PointsInsidePolygonF example_state 0 4 12 2 257 20 = Inr sf \<and>
    PointsInsidePolygonInt example_state 0 4 16 2 257 20 = Inr si \<and>
    InsidePolygon (mem example_state) 0 4 (example_points ! 0) (word_of_int 257) = Inr r \<and>
    InsidePolygonF (mem example_state) 0 4 (example_pointsF ! 0) (word_of_int 257) = Inr r \<and>
    InsidePolygonInt (mem example_state) 0 4 (example_pointsInt ! 0) (word_of_int 257) = Inr r \<and>
    r = spec_classify square (example_points ! 0) (word_of_int 257) \<and>
    mem sd (20 + int 0) = Some (CUChar r) \<and>
    mem sf (20 + int 0) = Some (CUChar r) \<and>
    mem si (20 + int 0) = Some (CUChar r)"
proof -
  have len: "length example_pointsF = length example_points"
    "length example_pointsInt = length example_points" "0 < length example_points"
    by (simp_all add: example_points_def example_pointsF_def example_pointsInt_def)
  have small: "(4::int) < 2147483647"
    by simp
  show ?thesis
    by (rule type_consistency [OF example_state_arrays(1) example_lengths(2,1) small
          example_state_arrays(2,3,4) example_lengths(3) len(1,2) example_state_arrays(5)
          len(3) example_conversions(1,2,3,4)])
qed



end
